theory Spec2Isabelle
  imports Main
begin

section \<open>Host objects read by the plugin\<close>

text \<open>
  The plugin of \<^verbatim>\<open>dailyNoteViewIndex.ts\<close> reads a few properties of objects owned by
  the host application. A property that JavaScript reads through optional chaining
  (\<^verbatim>\<open>a?.b?.c?.()\<close>) is an \<open>option\<close>: \<open>None\<close> is \<^verbatim>\<open>undefined\<close> or \<^verbatim>\<open>null\<close>.

  A view has the string its \<^verbatim>\<open>getViewType\<close> method returns (if it has the method), the
  answer of \<^verbatim>\<open>view instanceof DailyNoteView\<close>, and its \<^verbatim>\<open>editMode\<close> property.
\<close>

record 'e view =
  getViewType :: "string option"
  instanceofDailyNoteView :: bool
  editMode :: 'e

record 'e leaf =
  view :: "'e view option"

record 'e workspace =
  activeLeaf :: "'e leaf option"

text \<open>\<^verbatim>\<open>workspace.activeLeaf?.view?.getViewType?.()\<close>\<close>

definition activeViewType :: "'e workspace \<Rightarrow> string option" where
  "activeViewType ws =
     (case activeLeaf ws of
        None \<Rightarrow> None
      | Some l \<Rightarrow> (case view l of None \<Rightarrow> None | Some v \<Rightarrow> getViewType v))"


section \<open>Escape interceptor\<close>

text \<open>
  A DOM element is known by its class list. An event target is the chain of elements
  from the target itself up to the document's root element; \<open>None\<close> is a target that is
  \<^verbatim>\<open>null\<close> or has no \<^verbatim>\<open>closest\<close> method. \<^verbatim>\<open>el.closest(".c")\<close> is the first element of
  the chain that carries the class \<^verbatim>\<open>c\<close>.
\<close>

type_synonym element = "string list"

definition closest :: "string \<Rightarrow> element list option \<Rightarrow> element option" where
  "closest cls t = (case t of None \<Rightarrow> None | Some chain \<Rightarrow> find (\<lambda>el. cls \<in> set el) chain)"

text \<open>
  \<^verbatim>\<open>document.querySelector(".a,.b,...")\<close> over the elements of the document, in document
  order: the first element carrying one of the classes.
\<close>

definition querySelector :: "string list \<Rightarrow> element list \<Rightarrow> element option" where
  "querySelector classes doc = find (\<lambda>el. list_ex (\<lambda>c. c \<in> set el) classes) doc"

definition modalSelectors :: "string list" where
  "modalSelectors =
     [''modal-container'', ''prompt'', ''suggestion-container'', ''menu'', ''popover'']"

record keyboardEvent =
  key :: string
  target :: "element list option"
  propagationStopped :: bool
  immediatePropagationStopped :: bool
  defaultPrevented :: bool

text \<open>
  What the handler reads besides the event: the workspace, the document, the setting
  \<^verbatim>\<open>useArrowUpOrDownToNavigate\<close> and the closure variable \<^verbatim>\<open>focusInsideDNE\<close>.
\<close>

record 'e escState =
  workspaceOf :: "'e workspace"
  document :: "element list"
  useArrowUpOrDownToNavigate :: bool
  focusInsideDNE :: bool

text \<open>The \<^verbatim>\<open>focusin\<close> listener: \<^verbatim>\<open>focusInsideDNE = !!target?.closest?.(".dne-root")\<close>.\<close>

definition focusinHandler :: "element list option \<Rightarrow> 'e escState \<Rightarrow> 'e escState" where
  "focusinHandler tgt s = s\<lparr>focusInsideDNE := (closest ''dne-root'' tgt \<noteq> None)\<rparr>"

text \<open>
  \<^verbatim>\<open>escHandler\<close> (lines 139-165). The first argument is the constant
  \<^verbatim>\<open>DAILY_NOTE_VIEW_TYPE\<close>, which the file imports from \<^verbatim>\<open>./dailyNoteView\<close>. The listener is
  registered with \<^verbatim>\<open>passive: false\<close>, so \<^verbatim>\<open>preventDefault\<close> takes effect. The handler
  returns the event with the flags it has set.
\<close>

definition escHandler :: "string \<Rightarrow> 'e escState \<Rightarrow> keyboardEvent \<Rightarrow> keyboardEvent" where
  "escHandler DAILY_NOTE_VIEW_TYPE s e =
     (if key e \<noteq> ''Escape'' then e
      else
        let currentView = activeViewType (workspaceOf s);
            isInCodeMirror = closest ''cm-editor'' (target e)
        in
        if currentView \<noteq> Some DAILY_NOTE_VIEW_TYPE then e
        else
          let modalOpen = (querySelector modalSelectors (document s) \<noteq> None) in
          if modalOpen then e
          else if isInCodeMirror \<noteq> None \<and> useArrowUpOrDownToNavigate s then e
          else
            let cameFromDNE = (focusInsideDNE s \<or> closest ''dne-root'' (target e) \<noteq> None) in
            if cameFromDNE
            then e\<lparr>propagationStopped := True,
                   immediatePropagationStopped := True,
                   defaultPrevented := True\<rparr>
            else e)"

definition suppressed :: "keyboardEvent \<Rightarrow> bool" where
  "suppressed e = (propagationStopped e \<and> immediatePropagationStopped e \<and> defaultPrevented e)"

text \<open>
  C1. For a keydown event whose key is Escape: when the active view has the guarded view
  type, no modal, prompt, suggestion, menu or popover element is in the document, the
  setting for alternate navigation is off, and the target is inside the guarded region
  (the tracked focus flag is set, or the target or one of its ancestors carries the class
  \<^verbatim>\<open>dne-root\<close>), the handler stops propagation and prevents the default action. When a
  modal surface is open the handler leaves the event as it was, and so it does when the
  active view does not have the guarded view type.
\<close>

theorem escHandler_suppression:
  fixes s :: "'e escState" and e :: keyboardEvent
  assumes "key e = ''Escape''"
  shows "(activeViewType (workspaceOf s) = Some dvt \<and>
          querySelector modalSelectors (document s) = None \<and>
          \<not> useArrowUpOrDownToNavigate s \<and>
          (focusInsideDNE s \<or> closest ''dne-root'' (target e) \<noteq> None)
            \<longrightarrow> suppressed (escHandler dvt s e))
       \<and> (querySelector modalSelectors (document s) \<noteq> None \<longrightarrow> escHandler dvt s e = e)
       \<and> (activeViewType (workspaceOf s) \<noteq> Some dvt \<longrightarrow> escHandler dvt s e = e)"
  using assms by (simp add: escHandler_def suppressed_def Let_def)

definition dneView :: "unit view" where
  "dneView = \<lparr>getViewType = Some ''daily-note-editor-view'',
              instanceofDailyNoteView = True, editMode = ()\<rparr>"

definition markdownView :: "unit view" where
  "markdownView = \<lparr>getViewType = Some ''markdown'',
                   instanceofDailyNoteView = False, editMode = ()\<rparr>"

definition escKeydown :: keyboardEvent where
  "escKeydown = \<lparr>key = ''Escape'',
                 target = Some [[''cm-content''], [''cm-editor'', ''dne-root''], [''workspace-leaf'']],
                 propagationStopped = False, immediatePropagationStopped = False,
                 defaultPrevented = False\<rparr>"

definition escStateOf :: "unit view \<Rightarrow> element list \<Rightarrow> bool \<Rightarrow> unit escState" where
  "escStateOf v doc focus =
     \<lparr>workspaceOf = \<lparr>activeLeaf = Some \<lparr>view = Some v\<rparr>\<rparr>, document = doc,
      useArrowUpOrDownToNavigate = False, focusInsideDNE = focus\<rparr>"

theorem escHandler_suppression_witness:
  "suppressed (escHandler ''daily-note-editor-view''
      (escStateOf dneView [[''workspace''], [''cm-editor'', ''dne-root'']] False) escKeydown)
   \<and> \<not> suppressed (escHandler ''daily-note-editor-view''
      (escStateOf dneView [[''workspace''], [''modal-container'']] True) escKeydown)
   \<and> \<not> suppressed (escHandler ''daily-note-editor-view''
      (escStateOf markdownView [[''workspace'']] True) escKeydown)"
proof -
  let ?dvt = "''daily-note-editor-view''"
  let ?s1 = "escStateOf dneView [[''workspace''], [''cm-editor'', ''dne-root'']] False"
  let ?s2 = "escStateOf dneView [[''workspace''], [''modal-container'']] True"
  let ?s3 = "escStateOf markdownView [[''workspace'']] True"
  have k: "key escKeydown = ''Escape''"
    by (simp add: escKeydown_def)
  have h1: "activeViewType (workspaceOf ?s1) = Some ?dvt \<and>
            querySelector modalSelectors (document ?s1) = None \<and>
            \<not> useArrowUpOrDownToNavigate ?s1 \<and>
            (focusInsideDNE ?s1 \<or> closest ''dne-root'' (target escKeydown) \<noteq> None)"
    by (simp add: escStateOf_def dneView_def escKeydown_def activeViewType_def
        querySelector_def modalSelectors_def closest_def)
  have h2: "querySelector modalSelectors (document ?s2) \<noteq> None"
    by (simp add: escStateOf_def querySelector_def modalSelectors_def)
  have h3: "activeViewType (workspaceOf ?s3) \<noteq> Some ?dvt"
    by (simp add: escStateOf_def markdownView_def activeViewType_def)
  have ns: "\<not> suppressed escKeydown"
    by (simp add: suppressed_def escKeydown_def)
  from escHandler_suppression [OF k, of ?s1 ?dvt] h1
  have c1: "suppressed (escHandler ?dvt ?s1 escKeydown)" by blast
  from escHandler_suppression [OF k, of ?s2 ?dvt] h2
  have c2: "escHandler ?dvt ?s2 escKeydown = escKeydown" by blast
  from escHandler_suppression [OF k, of ?s3 ?dvt] h3
  have c3: "escHandler ?dvt ?s3 escKeydown = escKeydown" by blast
  from c1 c2 c3 ns show ?thesis by simp
qed


section \<open>Workspace lookup of the active view\<close>

text \<open>
  The argument of \<^verbatim>\<open>getActiveViewOfType\<close> is a view class; the wrapper reads its static
  property \<^verbatim>\<open>VIEW_TYPE\<close> through \<^verbatim>\<open>t?.VIEW_TYPE\<close>, so the argument may be missing.
\<close>

record viewConstructor =
  VIEW_TYPE :: "string option"

text \<open>
  The wrapper returns what the original lookup returned (a view of type \<open>'r\<close>, or
  \<^verbatim>\<open>null\<close>), or the \<^verbatim>\<open>editMode\<close> object of the active leaf's view.
\<close>

datatype ('r, 'e) lookupResult = Original "'r option" | EditMode 'e

text \<open>
  \<^verbatim>\<open>getActiveViewOfType\<close> as wrapped in \<^verbatim>\<open>patchWorkspace\<close> (lines 309-323). \<open>next\<close> is the
  original lookup; a view is an object, so \<^verbatim>\<open>!result\<close> holds exactly for \<open>None\<close>.
\<close>

definition getActiveViewOfType ::
  "('e workspace \<Rightarrow> viewConstructor option \<Rightarrow> 'r option) \<Rightarrow>
   'e workspace \<Rightarrow> viewConstructor option \<Rightarrow> ('r, 'e) lookupResult" where
  "getActiveViewOfType next this t =
     (let result = next this t in
      if result = None then
        if (case t of None \<Rightarrow> None | Some c \<Rightarrow> VIEW_TYPE c) = Some ''markdown'' then
          (case activeLeaf this of
             None \<Rightarrow> Original result
           | Some l \<Rightarrow>
               (case view l of
                  None \<Rightarrow> Original result
                | Some v \<Rightarrow>
                    if instanceofDailyNoteView v then EditMode (editMode v)
                    else Original result))
        else Original result
      else Original result)"

text \<open>\<^verbatim>\<open>activeLeaf?.view\<close> when it is an instance of \<^verbatim>\<open>DailyNoteView\<close>.\<close>

definition activeDailyNoteView :: "'e workspace \<Rightarrow> 'e view option" where
  "activeDailyNoteView ws =
     (case activeLeaf ws of
        None \<Rightarrow> None
      | Some l \<Rightarrow>
          (case view l of
             None \<Rightarrow> None
           | Some v \<Rightarrow> if instanceofDailyNoteView v then Some v else None))"

definition requestsMarkdown :: "viewConstructor option \<Rightarrow> bool" where
  "requestsMarkdown t = (case t of None \<Rightarrow> False | Some c \<Rightarrow> VIEW_TYPE c = Some ''markdown'')"

text \<open>
  C10. When the original lookup returns a view, the wrapper returns it unchanged. When
  the original returns null, the requested class has \<^verbatim>\<open>VIEW_TYPE\<close> \<^verbatim>\<open>"markdown"\<close> and the
  active leaf's view is an instance of the guarded view, the wrapper returns that view's
  \<^verbatim>\<open>editMode\<close>. In every other case with a null original result the wrapper returns null.
\<close>

theorem getActiveViewOfType_cases:
  fixes orig :: "'e workspace \<Rightarrow> viewConstructor option \<Rightarrow> 'r option"
  shows "(orig ws t \<noteq> None \<longrightarrow> getActiveViewOfType orig ws t = Original (orig ws t))
       \<and> (orig ws t = None \<and> requestsMarkdown t \<and> activeDailyNoteView ws = Some v
            \<longrightarrow> getActiveViewOfType orig ws t = EditMode (editMode v))
       \<and> (orig ws t = None \<and> \<not> (requestsMarkdown t \<and> activeDailyNoteView ws \<noteq> None)
            \<longrightarrow> getActiveViewOfType orig ws t = Original None)"
  by (auto simp: getActiveViewOfType_def requestsMarkdown_def activeDailyNoteView_def Let_def
      split: option.splits if_splits)

definition markdownClass :: "viewConstructor option" where
  "markdownClass = Some \<lparr>VIEW_TYPE = Some ''markdown''\<rparr>"

definition canvasClass :: "viewConstructor option" where
  "canvasClass = Some \<lparr>VIEW_TYPE = Some ''canvas''\<rparr>"

definition editorWorkspace :: "nat workspace" where
  "editorWorkspace =
     \<lparr>activeLeaf = Some \<lparr>view = Some \<lparr>getViewType = Some ''daily-note-editor-view'',
        instanceofDailyNoteView = True, editMode = 7\<rparr>\<rparr>\<rparr>"

theorem getActiveViewOfType_cases_witness:
  "getActiveViewOfType (\<lambda>ws t. Some (3::nat)) editorWorkspace markdownClass = Original (Some 3)
   \<and> getActiveViewOfType (\<lambda>ws t. (None :: nat option)) editorWorkspace markdownClass = EditMode 7
   \<and> getActiveViewOfType (\<lambda>ws t. (None :: nat option)) editorWorkspace canvasClass = Original None"
proof -
  let ?some = "\<lambda>(ws :: nat workspace) (t :: viewConstructor option). Some (3::nat)"
  let ?none = "\<lambda>(ws :: nat workspace) (t :: viewConstructor option). (None :: nat option)"
  let ?v = "\<lparr>getViewType = Some ''daily-note-editor-view'',
             instanceofDailyNoteView = True, editMode = 7::nat\<rparr>"
  have h1: "?some editorWorkspace markdownClass \<noteq> None" by simp
  have h2: "?none editorWorkspace markdownClass = None \<and> requestsMarkdown markdownClass \<and>
            activeDailyNoteView editorWorkspace = Some ?v"
    by (simp add: requestsMarkdown_def markdownClass_def activeDailyNoteView_def
        editorWorkspace_def)
  have h3: "?none editorWorkspace canvasClass = None \<and>
            \<not> (requestsMarkdown canvasClass \<and> activeDailyNoteView editorWorkspace \<noteq> None)"
    by (simp add: requestsMarkdown_def canvasClass_def)
  from getActiveViewOfType_cases [of ?some editorWorkspace markdownClass] h1
  have c1: "getActiveViewOfType ?some editorWorkspace markdownClass = Original (Some 3)"
    by blast
  from getActiveViewOfType_cases [of ?none editorWorkspace markdownClass ?v] h2
  have c2: "getActiveViewOfType ?none editorWorkspace markdownClass = EditMode 7"
    by simp
  from getActiveViewOfType_cases [of ?none editorWorkspace canvasClass] h3
  have c3: "getActiveViewOfType ?none editorWorkspace canvasClass = Original None"
    by blast
  from c1 c2 c3 show ?thesis by simp
qed


section \<open>Day-boundary monitor\<close>

text \<open>
  \<^verbatim>\<open>checkDayChange\<close> (lines 449-469) runs on a timer every 15 minutes and
  \<^verbatim>\<open>ensureTodaysDailyNoteExists\<close> (lines 277-289) is what it awaits. What they do to the
  outside is kept as a list of events, in order: the two console calls, each entry into
  \<^verbatim>\<open>ensureTodaysDailyNoteExists\<close> (with the date its own \<^verbatim>\<open>moment()\<close> read), each call of
  \<^verbatim>\<open>createDailyNote\<close>, and each call of a view's \<^verbatim>\<open>refreshForNewDay\<close>.
\<close>

datatype monitorEvent =
    ConsoleLogDayChanged
  | EnsureCalled string
  | CreateDailyNote string
  | ConsoleError
  | RefreshForNewDay nat

text \<open>
  The state across ticks: the field \<^verbatim>\<open>lastCheckedDay\<close>, the dates that have a daily note
  (what \<^verbatim>\<open>getAllDailyNotes\<close> and \<^verbatim>\<open>getDailyNote\<close> read), and the events so far.
\<close>

record monitor =
  lastCheckedDay :: string
  dailyNotes :: "string list"
  events :: "monitorEvent list"

text \<open>
  What one tick reads from outside: the date string \<^verbatim>\<open>moment().format("YYYY-MM-DD")\<close> of
  \<^verbatim>\<open>checkDayChange\<close>, the date of the second \<^verbatim>\<open>moment()\<close> in
  \<^verbatim>\<open>ensureTodaysDailyNoteExists\<close>, whether the note library throws on lookup or on
  creation, and \<^verbatim>\<open>getLeavesOfType(DAILY_NOTE_VIEW_TYPE)\<close>: for each leaf its view (a view is
  known by a number), \<open>None\<close> for a leaf whose \<^verbatim>\<open>view\<close> is missing.
\<close>

record tick =
  today :: string
  currentDate :: string
  lookupThrows :: bool
  createThrows :: bool
  leavesOfType :: "nat option list"

text \<open>What the note library can throw, and the recording of one event.\<close>

datatype exn = LookupFailed | CreateFailed

definition emit :: "monitorEvent \<Rightarrow> monitor \<Rightarrow> monitor" where
  "emit ev m = m\<lparr>events := events m @ [ev]\<rparr>"

text \<open>
  The \<^verbatim>\<open>try\<close> block of \<^verbatim>\<open>ensureTodaysDailyNoteExists\<close>: \<open>Inl\<close> is an exception, with the
  state at the point where it was thrown.
\<close>

definition ensureTry :: "tick \<Rightarrow> monitor \<Rightarrow> (exn \<times> monitor) + monitor" where
  "ensureTry i m =
     (if lookupThrows i then Inl (LookupFailed, m)
      else if currentDate i \<in> set (dailyNotes m) then Inr m
      else
        let m' = emit (CreateDailyNote (currentDate i)) m in
        if createThrows i then Inl (CreateFailed, m')
        else Inr (m'\<lparr>dailyNotes := currentDate i # dailyNotes m'\<rparr>))"

text \<open>The whole function: the \<^verbatim>\<open>catch\<close> clause logs with \<^verbatim>\<open>console.error\<close> and returns.\<close>

definition ensureTodaysDailyNoteExists :: "tick \<Rightarrow> monitor \<Rightarrow> monitor" where
  "ensureTodaysDailyNoteExists i m =
     (case ensureTry i (emit (EnsureCalled (currentDate i)) m) of
        Inr m' \<Rightarrow> m'
      | Inl (error, m') \<Rightarrow> emit ConsoleError m')"

text \<open>The loop \<^verbatim>\<open>for (const leaf of dailyNoteLeaves) { if (view) view.refreshForNewDay() }\<close>.\<close>

fun refreshLeaves :: "nat option list \<Rightarrow> monitor \<Rightarrow> monitor" where
  "refreshLeaves [] m = m"
| "refreshLeaves (None # ls) m = refreshLeaves ls m"
| "refreshLeaves (Some v # ls) m = refreshLeaves ls (emit (RefreshForNewDay v) m)"

definition checkDayChange :: "tick \<Rightarrow> monitor \<Rightarrow> monitor" where
  "checkDayChange i m =
     (let currentDay = today i in
      if currentDay \<noteq> lastCheckedDay m then
        let m1 = emit ConsoleLogDayChanged (m\<lparr>lastCheckedDay := currentDay\<rparr>);
            m2 = ensureTodaysDailyNoteExists i m1;
            dailyNoteLeaves = leavesOfType i
        in if length dailyNoteLeaves > 0 then refreshLeaves dailyNoteLeaves m2 else m2
      else m)"

text \<open>The timer: one call of \<^verbatim>\<open>checkDayChange\<close> per tick, each finished before the next.\<close>

fun runTicks :: "tick list \<Rightarrow> monitor \<Rightarrow> monitor" where
  "runTicks [] m = m"
| "runTicks (i # is) m = runTicks is (checkDayChange i m)"

text \<open>
  The views of the leaves of one tick, and the counts the properties speak of: how often
  \<^verbatim>\<open>ensureTodaysDailyNoteExists\<close> was entered and how often a view was refreshed.
\<close>

fun liveViews :: "nat option list \<Rightarrow> nat list" where
  "liveViews [] = []"
| "liveViews (None # ls) = liveViews ls"
| "liveViews (Some v # ls) = v # liveViews ls"

fun isEnsureCalled :: "monitorEvent \<Rightarrow> bool" where
  "isEnsureCalled (EnsureCalled d) = True"
| "isEnsureCalled _ = False"

definition ensureCalls :: "monitor \<Rightarrow> nat" where
  "ensureCalls m = length (filter isEnsureCalled (events m))"

definition refreshCalls :: "nat \<Rightarrow> monitor \<Rightarrow> nat" where
  "refreshCalls v m = count_list (events m) (RefreshForNewDay v)"

lemma lastCheckedDay_emit [simp]: "lastCheckedDay (emit ev m) = lastCheckedDay m"
  by (simp add: emit_def)

lemma events_emit [simp]: "events (emit ev m) = events m @ [ev]"
  by (simp add: emit_def)

lemma dailyNotes_emit [simp]: "dailyNotes (emit ev m) = dailyNotes m"
  by (simp add: emit_def)

lemma lastCheckedDay_ensure [simp]:
  "lastCheckedDay (ensureTodaysDailyNoteExists i m) = lastCheckedDay m"
  by (simp add: ensureTodaysDailyNoteExists_def ensureTry_def Let_def)

lemma events_ensure:
  "\<exists>es. events (ensureTodaysDailyNoteExists i m) = events m @ EnsureCalled (currentDate i) # es
      \<and> set es \<subseteq> {CreateDailyNote (currentDate i), ConsoleError}"
  by (simp add: ensureTodaysDailyNoteExists_def ensureTry_def Let_def)

lemma lastCheckedDay_refreshLeaves [simp]:
  "lastCheckedDay (refreshLeaves ls m) = lastCheckedDay m"
  by (induction ls m rule: refreshLeaves.induct) simp_all

lemma events_refreshLeaves:
  "events (refreshLeaves ls m) = events m @ map RefreshForNewDay (liveViews ls)"
  by (induction ls m rule: refreshLeaves.induct) simp_all

lemma checkDayChange_same_day:
  "today i = lastCheckedDay m \<Longrightarrow> checkDayChange i m = m"
  by (simp add: checkDayChange_def)

lemma lastCheckedDay_checkDayChange [simp]:
  "lastCheckedDay (checkDayChange i m) = today i"
  by (simp add: checkDayChange_def Let_def)

lemma runTicks_same_day:
  "\<forall>i\<in>set ts. today i = lastCheckedDay m \<Longrightarrow> runTicks ts m = m"
  by (induction ts) (simp_all add: checkDayChange_same_day)

lemma runTicks_append: "runTicks (xs @ ys) m = runTicks ys (runTicks xs m)"
  by (induction xs arbitrary: m) simp_all

lemma runTicks_crossing:
  assumes "\<forall>i\<in>set before. today i = lastCheckedDay m"
      and "\<forall>i\<in>set after. today i = today c"
  shows "runTicks (before @ c # after) m = checkDayChange c m"
proof -
  have "runTicks before m = m"
    using assms(1) by (rule runTicks_same_day)
  moreover have "runTicks after (checkDayChange c m) = checkDayChange c m"
    using assms(2) by (intro runTicks_same_day) simp
  ultimately show ?thesis
    by (simp add: runTicks_append)
qed

lemma events_crossing:
  assumes "today c \<noteq> lastCheckedDay m"
  shows "\<exists>es. events (checkDayChange c m) =
           events m @ ConsoleLogDayChanged # EnsureCalled (currentDate c) # es
             @ map RefreshForNewDay (liveViews (leavesOfType c))
         \<and> set es \<subseteq> {CreateDailyNote (currentDate c), ConsoleError}"
proof -
  let ?m1 = "emit ConsoleLogDayChanged (m\<lparr>lastCheckedDay := today c\<rparr>)"
  obtain es where es: "events (ensureTodaysDailyNoteExists c ?m1)
        = events ?m1 @ EnsureCalled (currentDate c) # es"
      "set es \<subseteq> {CreateDailyNote (currentDate c), ConsoleError}"
    using events_ensure [of c ?m1] by blast
  have "events (checkDayChange c m) =
          events (ensureTodaysDailyNoteExists c ?m1) @ map RefreshForNewDay (liveViews (leavesOfType c))"
    using assms by (cases "leavesOfType c") (simp_all add: checkDayChange_def Let_def events_refreshLeaves)
  with es show ?thesis by simp
qed

lemma count_list_append: "count_list (xs @ ys) x = count_list xs x + count_list ys x"
  by (induction xs) simp_all

lemma count_list_map_distinct:
  "distinct vs \<Longrightarrow> count_list (map RefreshForNewDay vs) (RefreshForNewDay v) = (if v \<in> set vs then 1 else 0)"
  by (induction vs) auto

lemma count_list_zero: "x \<notin> set xs \<Longrightarrow> count_list xs x = 0"
  by (induction xs) auto

lemma filter_none: "\<forall>x\<in>set xs. \<not> P x \<Longrightarrow> filter P xs = []"
  by (induction xs) auto

text \<open>
  C5. The monitor starts with \<^verbatim>\<open>lastCheckedDay\<close> \<open>d0\<close>. The ticks \<open>before\<close> all read the date
  \<open>d0\<close>, the tick \<open>c\<close> is the first to read the new date \<open>d1\<close>, and the ticks \<open>after\<close> all
  read \<open>d1\<close>; the lists \<open>before\<close> and \<open>after\<close> have any length. Then the whole run does what
  the one tick \<open>c\<close> does: \<^verbatim>\<open>ensureTodaysDailyNoteExists\<close> is entered exactly once, for \<open>d1\<close>,
  and \<^verbatim>\<open>refreshForNewDay\<close> is called exactly once on each view of a guarded leaf that is
  open at \<open>c\<close> and on no other view.
\<close>

theorem day_boundary_once:
  assumes start: "lastCheckedDay m = d0"
      and cross: "d0 \<noteq> d1"
      and before: "\<forall>i\<in>set before. today i = d0"
      and crossing: "today c = d1" "currentDate c = d1"
      and after: "\<forall>i\<in>set after. today i = d1"
      and leaves: "distinct (liveViews (leavesOfType c))"
  shows "runTicks (before @ c # after) m = checkDayChange c m
       \<and> ensureCalls (runTicks (before @ c # after) m) = ensureCalls m + 1
       \<and> count_list (events (runTicks (before @ c # after) m)) (EnsureCalled d1)
           = count_list (events m) (EnsureCalled d1) + 1
       \<and> (\<forall>v. refreshCalls v (runTicks (before @ c # after) m)
           = refreshCalls v m + (if v \<in> set (liveViews (leavesOfType c)) then 1 else 0))"
proof -
  have run: "runTicks (before @ c # after) m = checkDayChange c m"
    using before after start crossing by (intro runTicks_crossing) simp_all
  obtain es where ev: "events (checkDayChange c m) =
           events m @ ConsoleLogDayChanged # EnsureCalled d1 # es
             @ map RefreshForNewDay (liveViews (leavesOfType c))"
      and es: "set es \<subseteq> {CreateDailyNote d1, ConsoleError}"
    using events_crossing [of c m] start cross crossing by auto
  have f1: "filter isEnsureCalled es = []"
    using es by (intro filter_none) auto
  have f2: "filter isEnsureCalled (map RefreshForNewDay vs) = []" for vs
    by (induction vs) simp_all
  have c1: "count_list es (EnsureCalled d1) = 0" "count_list es (RefreshForNewDay v) = 0" for v
    using es by (auto intro!: count_list_zero)
  have c2: "count_list (map RefreshForNewDay vs) (EnsureCalled d1) = 0" for vs
    by (induction vs) simp_all
  have ens: "ensureCalls (checkDayChange c m) = ensureCalls m + 1"
    by (simp add: ensureCalls_def ev f1 f2)
  have cnt: "count_list (events (checkDayChange c m)) (EnsureCalled d1)
           = count_list (events m) (EnsureCalled d1) + 1"
    by (simp add: ev count_list_append c1 c2)
  have ref: "refreshCalls v (checkDayChange c m)
           = refreshCalls v m + (if v \<in> set (liveViews (leavesOfType c)) then 1 else 0)" for v
    by (simp add: refreshCalls_def ev count_list_append c1 count_list_map_distinct [OF leaves])
  from run ens cnt ref show ?thesis by simp
qed

definition newYearsEve :: monitor where
  "newYearsEve = \<lparr>lastCheckedDay = ''2024-12-31'', dailyNotes = [''2024-12-31''], events = []\<rparr>"

definition tickOn :: "string \<Rightarrow> bool \<Rightarrow> tick" where
  "tickOn d fails =
     \<lparr>today = d, currentDate = d, lookupThrows = False, createThrows = fails,
      leavesOfType = [Some 0, None, Some 1]\<rparr>"

theorem day_boundary_once_witness:
  "ensureCalls (runTicks [tickOn ''2024-12-31'' False, tickOn ''2025-01-01'' False,
       tickOn ''2025-01-01'' False, tickOn ''2025-01-01'' False] newYearsEve) = 1
   \<and> refreshCalls 0 (runTicks [tickOn ''2024-12-31'' False, tickOn ''2025-01-01'' False,
       tickOn ''2025-01-01'' False, tickOn ''2025-01-01'' False] newYearsEve) = 1
   \<and> refreshCalls 1 (runTicks [tickOn ''2024-12-31'' False, tickOn ''2025-01-01'' False,
       tickOn ''2025-01-01'' False, tickOn ''2025-01-01'' False] newYearsEve) = 1"
proof -
  let ?b = "[tickOn ''2024-12-31'' False]"
  let ?c = "tickOn ''2025-01-01'' False"
  let ?a = "[tickOn ''2025-01-01'' False, tickOn ''2025-01-01'' False]"
  have h1: "lastCheckedDay newYearsEve = ''2024-12-31''"
    by (simp add: newYearsEve_def)
  have h2: "''2024-12-31'' \<noteq> ''2025-01-01''" by simp
  have h3: "\<forall>i\<in>set ?b. today i = ''2024-12-31''"
    by (simp add: tickOn_def)
  have h4: "today ?c = ''2025-01-01''" "currentDate ?c = ''2025-01-01''"
    by (simp_all add: tickOn_def)
  have h5: "\<forall>i\<in>set ?a. today i = ''2025-01-01''"
    by (simp add: tickOn_def)
  have h6: "distinct (liveViews (leavesOfType ?c))"
    by (simp add: tickOn_def)
  have v: "liveViews (leavesOfType ?c) = [0, 1]"
    by (simp add: tickOn_def)
  have e: "ensureCalls newYearsEve = 0" "refreshCalls v newYearsEve = 0" for v
    by (simp_all add: ensureCalls_def refreshCalls_def newYearsEve_def)
  note once = day_boundary_once [OF h1 h2 h3 h4 h5 h6, THEN conjunct2]
  from once [THEN conjunct1] once [THEN conjunct2, THEN conjunct2] show ?thesis
    by (simp add: v e del: runTicks.simps)
qed

text \<open>
  C6 as stated fails in its last part. On 2025-01-01 the first tick finds no note and
  \<^verbatim>\<open>createDailyNote\<close> throws; the error is logged and no note exists. The next tick of the
  same day, on which creation would succeed, changes nothing: \<^verbatim>\<open>createDailyNote\<close> has been
  called once in the two ticks.
\<close>

theorem ensure_retry_counterexample:
  "ConsoleError \<in> set (events (checkDayChange (tickOn ''2025-01-01'' True) newYearsEve))
   \<and> ''2025-01-01'' \<notin> set (dailyNotes (checkDayChange (tickOn ''2025-01-01'' True) newYearsEve))
   \<and> checkDayChange (tickOn ''2025-01-01'' False)
        (checkDayChange (tickOn ''2025-01-01'' True) newYearsEve)
      = checkDayChange (tickOn ''2025-01-01'' True) newYearsEve
   \<and> count_list (events (runTicks [tickOn ''2025-01-01'' True, tickOn ''2025-01-01'' False]
        newYearsEve)) (CreateDailyNote ''2025-01-01'') = 1"
  by (simp add: checkDayChange_def ensureTodaysDailyNoteExists_def ensureTry_def emit_def
      tickOn_def newYearsEve_def Let_def)

text \<open>
  C6, amended. When \<^verbatim>\<open>createDailyNote\<close> throws on a tick that sees a new date, the error
  is caught and logged with \<^verbatim>\<open>console.error\<close>, the tick completes (the new date is stored
  and every open guarded view is refreshed), and a later tick that sees another date
  enters \<^verbatim>\<open>ensureTodaysDailyNoteExists\<close> again. There is no retry: the date is stored before
  the note is ensured, so every later tick that reads the same date leaves the state as
  it is, and creation is attempted again only at the next change of date.
\<close>

theorem creation_failure_handled:
  assumes cross: "today c \<noteq> lastCheckedDay m"
      and fails: "\<not> lookupThrows c" "currentDate c \<notin> set (dailyNotes m)" "createThrows c"
  shows "ConsoleError \<in> set (events (checkDayChange c m))
       \<and> dailyNotes (checkDayChange c m) = dailyNotes m
       \<and> lastCheckedDay (checkDayChange c m) = today c
       \<and> (\<forall>v. refreshCalls v (checkDayChange c m)
             = refreshCalls v m + count_list (liveViews (leavesOfType c)) v)
       \<and> (\<forall>r. today r = today c \<longrightarrow> checkDayChange r (checkDayChange c m) = checkDayChange c m)
       \<and> (\<forall>r. today r \<noteq> today c \<longrightarrow>
             ensureCalls (checkDayChange r (checkDayChange c m))
               = ensureCalls (checkDayChange c m) + 1)"
proof -
  let ?m1 = "emit ConsoleLogDayChanged (m\<lparr>lastCheckedDay := today c\<rparr>)"
  let ?m2 = "ensureTodaysDailyNoteExists c ?m1"
  have m2: "events ?m2 = events m @ [ConsoleLogDayChanged, EnsureCalled (currentDate c),
              CreateDailyNote (currentDate c), ConsoleError]"
       "dailyNotes ?m2 = dailyNotes m"
    using fails by (simp_all add: ensureTodaysDailyNoteExists_def ensureTry_def Let_def)
  have ch: "checkDayChange c m = refreshLeaves (leavesOfType c) ?m2"
    using cross by (cases "leavesOfType c") (simp_all add: checkDayChange_def Let_def)
  have dn: "dailyNotes (refreshLeaves ls x) = dailyNotes x" for ls x
    by (induction ls x rule: refreshLeaves.induct) simp_all
  have cm: "count_list (map RefreshForNewDay vs) (RefreshForNewDay v) = count_list vs v" for vs v
    by (induction vs) simp_all
  have a: "ConsoleError \<in> set (events (checkDayChange c m))"
    by (simp add: ch events_refreshLeaves m2)
  have b: "dailyNotes (checkDayChange c m) = dailyNotes m"
    by (simp add: ch dn m2)
  have d: "refreshCalls v (checkDayChange c m)
             = refreshCalls v m + count_list (liveViews (leavesOfType c)) v" for v
    by (simp add: refreshCalls_def ch events_refreshLeaves m2 count_list_append cm)
  have e: "checkDayChange r (checkDayChange c m) = checkDayChange c m" if "today r = today c" for r
    using that by (intro checkDayChange_same_day) simp
  have f: "ensureCalls (checkDayChange r (checkDayChange c m))
               = ensureCalls (checkDayChange c m) + 1" if "today r \<noteq> today c" for r
  proof -
    have "today r \<noteq> lastCheckedDay (checkDayChange c m)"
      using that by simp
    from events_crossing [OF this] obtain es where
      ev: "events (checkDayChange r (checkDayChange c m)) =
           events (checkDayChange c m) @ ConsoleLogDayChanged # EnsureCalled (currentDate r) # es
             @ map RefreshForNewDay (liveViews (leavesOfType r))"
      and es: "set es \<subseteq> {CreateDailyNote (currentDate r), ConsoleError}"
      by blast
    have f1: "filter isEnsureCalled es = []"
      using es by (intro filter_none) auto
    have f2: "filter isEnsureCalled (map RefreshForNewDay vs) = []" for vs
      by (induction vs) simp_all
    show ?thesis
      by (simp add: ensureCalls_def ev f1 f2)
  qed
  from a b d e f show ?thesis by simp
qed

theorem creation_failure_handled_witness:
  "ConsoleError \<in> set (events (checkDayChange (tickOn ''2025-01-01'' True) newYearsEve))
   \<and> checkDayChange (tickOn ''2025-01-01'' False)
        (checkDayChange (tickOn ''2025-01-01'' True) newYearsEve)
      = checkDayChange (tickOn ''2025-01-01'' True) newYearsEve
   \<and> ensureCalls (checkDayChange (tickOn ''2025-01-02'' False)
        (checkDayChange (tickOn ''2025-01-01'' True) newYearsEve))
      = ensureCalls (checkDayChange (tickOn ''2025-01-01'' True) newYearsEve) + 1"
proof -
  let ?c = "tickOn ''2025-01-01'' True"
  have h1: "today ?c \<noteq> lastCheckedDay newYearsEve"
    by (simp add: tickOn_def newYearsEve_def)
  have h2: "\<not> lookupThrows ?c" "currentDate ?c \<notin> set (dailyNotes newYearsEve)" "createThrows ?c"
    by (simp_all add: tickOn_def newYearsEve_def)
  have r1: "today (tickOn ''2025-01-01'' False) = today ?c"
    by (simp add: tickOn_def)
  have r2: "today (tickOn ''2025-01-02'' False) \<noteq> today ?c"
    by (simp add: tickOn_def)
  from creation_failure_handled [OF h1 h2] r1 r2 show ?thesis
    by blast
qed


section \<open>Leaf behaviour patcher\<close>

text \<open>
  \<^verbatim>\<open>patchWorkspaceLeaf\<close> (lines 376-435) wraps three methods of \<^verbatim>\<open>WorkspaceLeaf.prototype\<close>
  with \<^verbatim>\<open>around\<close> of the library \<^verbatim>\<open>monkey-around\<close>. Each wrapper receives the method it
  replaces as \<open>old\<close>. The originals belong to the host application and
  \<^verbatim>\<open>isDailyNoteLeaf\<close> is imported from \<^verbatim>\<open>./leafView\<close>, so both are parameters here. A method
  of the host takes the receiver \<open>this\<close> and the state of the application, and returns
  the new state.
\<close>

subsection \<open>Pin toggle\<close>

text \<open>
  \<^verbatim>\<open>setPinned\<close> (lines 387-393). The call \<^verbatim>\<open>this.setPinned(true)\<close> goes through the prototype
  again and so reaches this same wrapper; it happens only for \<^verbatim>\<open>pinned = false\<close> and passes
  \<^verbatim>\<open>true\<close>, which is why the recursion ends.
\<close>

function setPinned ::
  "('l \<Rightarrow> bool \<Rightarrow> 'w \<Rightarrow> 'w) \<Rightarrow> ('l \<Rightarrow> 'w \<Rightarrow> bool) \<Rightarrow> 'l \<Rightarrow> bool \<Rightarrow> 'w \<Rightarrow> 'w" where
  "setPinned old isDailyNoteLeaf this pinned w =
     (let w' = old this pinned w in
      if isDailyNoteLeaf this w' \<and> \<not> pinned
      then setPinned old isDailyNoteLeaf this True w'
      else w')"
  by pat_completeness auto
termination
  by (relation "measure (\<lambda>(old, isDailyNoteLeaf, this, pinned, w). if pinned then 0 else 1)") auto

lemma setPinned_true:
  "setPinned old isd this True w = old this True w"
  by simp

lemma setPinned_false:
  "setPinned old isd this False w =
     (if isd this (old this False w) then old this True (old this False w) else old this False w)"
  by (simp add: Let_def)

lemma setPinned_step:
  assumes host: "\<And>p w. pinnedOf this (old this p w) = p"
      and stays: "\<And>p w. isd this w \<Longrightarrow> isd this (old this p w)"
      and guarded: "isd this w"
  shows "pinnedOf this (setPinned old isd this p w) \<and> isd this (setPinned old isd this p w)"
proof (cases p)
  case True
  then show ?thesis
    using host stays guarded by (simp del: setPinned.simps add: setPinned_true)
next
  case False
  then show ?thesis
    using host stays guarded by (simp del: setPinned.simps add: setPinned_false)
qed

text \<open>
  C2. The host's original \<^verbatim>\<open>setPinned\<close> stores its argument as the leaf's pinned state
  (\<open>pinnedOf\<close> reads it), and a pin toggle does not change that the leaf hosts the
  guarded view. Then after every sequence of at least one call of the patched
  \<^verbatim>\<open>setPinned\<close> on a guarded leaf, with any arguments, the leaf is pinned; a single call
  with \<^verbatim>\<open>false\<close> is the sequence \<open>[False]\<close>.
\<close>

theorem setPinned_guarded_stays_pinned:
  assumes host: "\<forall>p w. pinnedOf this (old this p w) = p"
      and stays: "\<forall>p w. isDailyNoteLeaf this w \<longrightarrow> isDailyNoteLeaf this (old this p w)"
      and guarded: "isDailyNoteLeaf this w"
      and calls: "ps \<noteq> []"
  shows "pinnedOf this (fold (setPinned old isDailyNoteLeaf this) ps w)"
  using guarded calls
proof (induction ps arbitrary: w)
  case Nil
  then show ?case by simp
next
  case (Cons p ps)
  have h: "pinnedOf this (old this q v) = q" for q v
    using host by blast
  have st: "isDailyNoteLeaf this v \<Longrightarrow> isDailyNoteLeaf this (old this q v)" for q v
    using stays by blast
  note step = setPinned_step [of pinnedOf this old isDailyNoteLeaf w p, OF h st Cons.prems(1)]
  show ?case
  proof (cases "ps = []")
    case True
    then show ?thesis using step by (simp del: setPinned.simps)
  next
    case False
    then show ?thesis
      using Cons.IH [of "setPinned old isDailyNoteLeaf this p w"] step
      by (simp del: setPinned.simps)
  qed
qed

theorem setPinned_guarded_stays_pinned_witness:
  "snd (fold (setPinned (\<lambda>this p w. (fst w, p)) (\<lambda>this w. fst w) ())
      [True, False, False] (True, False))"
proof -
  let ?old = "\<lambda>(this :: unit) (p :: bool) (w :: bool \<times> bool). (fst w, p)"
  let ?isd = "\<lambda>(this :: unit) (w :: bool \<times> bool). fst w"
  let ?pin = "\<lambda>(this :: unit) (w :: bool \<times> bool). snd w"
  have host: "\<forall>p w. ?pin () (?old () p w) = p" by simp
  have stays: "\<forall>p w. ?isd () w \<longrightarrow> ?isd () (?old () p w)" by simp
  have guarded: "?isd () (True, False)" by simp
  have calls: "[True, False, False] \<noteq> []" by simp
  from setPinned_guarded_stays_pinned [of ?pin "()" ?old ?isd, OF host stays guarded calls]
  show ?thesis by (simp add: case_prod_beta del: setPinned.simps)
qed


subsection \<open>Root resolution\<close>

text \<open>
  Workspace items (leaves, splits, containers) are known by numbers. The wrapper
  compares two function objects, \<^verbatim>\<open>top?.getRoot === this.getRoot\<close>: a function object is
  either the wrapper that \<^verbatim>\<open>patchWorkspaceLeaf\<close> installs or a function of the host, known
  by a number.
\<close>

datatype getRootFn = PatchedGetRoot | HostGetRoot nat

datatype jsError = TypeError

text \<open>
  What the host provides: for each item the function its \<^verbatim>\<open>getRoot\<close> property resolves
  to (\<open>None\<close>: no such property), the method \<open>old\<close> that the wrapper replaces, and what each
  host function returns for a receiver (\<open>None\<close>: \<^verbatim>\<open>undefined\<close> or \<^verbatim>\<open>null\<close>).
\<close>

record rootHost =
  getRootOf :: "nat \<Rightarrow> getRootFn option"
  oldGetRoot :: "nat \<Rightarrow> nat option"
  hostGetRoot :: "nat \<Rightarrow> nat \<Rightarrow> nat option"

text \<open>
  \<^verbatim>\<open>getRoot\<close> (lines 379-386). When \<^verbatim>\<open>top\<close> is missing, both \<^verbatim>\<open>top\<close> and
  \<^verbatim>\<open>top?.getRoot()\<close> are \<open>None\<close>. Calling \<^verbatim>\<open>top.getRoot()\<close> on an item without the method
  throws a \<^verbatim>\<open>TypeError\<close>; on an item whose method is this wrapper it runs the wrapper
  again, which can happen only when the receiver's own \<^verbatim>\<open>getRoot\<close> is not the wrapper.
\<close>

function getRoot :: "rootHost \<Rightarrow> nat \<Rightarrow> jsError + nat option" where
  "getRoot h this =
     (case oldGetRoot h this of
        None \<Rightarrow> Inr None
      | Some topItem \<Rightarrow>
          if getRootOf h topItem = getRootOf h this then Inr (Some topItem)
          else
            (case getRootOf h topItem of
               None \<Rightarrow> Inl TypeError
             | Some PatchedGetRoot \<Rightarrow> getRoot h topItem
             | Some (HostGetRoot k) \<Rightarrow> Inr (hostGetRoot h k topItem)))"
  by pat_completeness auto
termination
  by (relation "measure (\<lambda>(h, this). if getRootOf h this = Some PatchedGetRoot then 0 else 1)")
    auto

text \<open>The method call \<^verbatim>\<open>x.getRoot()\<close>.\<close>

definition callGetRoot :: "rootHost \<Rightarrow> nat \<Rightarrow> jsError + nat option" where
  "callGetRoot h x =
     (case getRootOf h x of
        None \<Rightarrow> Inl TypeError
      | Some PatchedGetRoot \<Rightarrow> getRoot h x
      | Some (HostGetRoot k) \<Rightarrow> Inr (hostGetRoot h k x))"

lemma getRoot_unfold:
  "getRoot h this =
     (case oldGetRoot h this of
        None \<Rightarrow> Inr None
      | Some topItem \<Rightarrow>
          if getRootOf h topItem = getRootOf h this then Inr (Some topItem) else callGetRoot h topItem)"
  by (simp add: callGetRoot_def split: option.splits)

text \<open>
  Four hosts. In \<open>popoverHost\<close> the leaf 0 sits in a popover whose root split is 1; the
  split's own \<^verbatim>\<open>getRoot\<close> (host function 1) answers with the root 2 of the main window,
  and host function 0 returns its receiver. In \<open>detachedHost\<close> the single leaf 0 has no
  parent and the original returns the leaf itself. In \<open>chainHost\<close> the splits 1 and 2 each
  answer with the next item up, so the root 3 is two calls away from 1. In \<open>leafChain\<close> the
  original returns for the leaf 0 another leaf 1, whose own root is 2.
\<close>

definition popoverHost :: rootHost where
  "popoverHost =
     \<lparr>getRootOf = (\<lambda>x. if x = 0 then Some PatchedGetRoot
                       else if x = 1 then Some (HostGetRoot 1)
                       else if x = 2 then Some (HostGetRoot 0)
                       else None),
      oldGetRoot = (\<lambda>x. if x = 0 then Some 1 else Some x),
      hostGetRoot = (\<lambda>k x. if k = 1 then Some 2 else Some x)\<rparr>"

definition detachedHost :: rootHost where
  "detachedHost =
     \<lparr>getRootOf = (\<lambda>x. if x = 0 then Some PatchedGetRoot else None),
      oldGetRoot = (\<lambda>x. Some x),
      hostGetRoot = (\<lambda>k x. None)\<rparr>"

definition chainHost :: rootHost where
  "chainHost =
     \<lparr>getRootOf = (\<lambda>x. if x = 0 then Some PatchedGetRoot
                       else if x = 1 \<or> x = 2 then Some (HostGetRoot 1)
                       else if x = 3 then Some (HostGetRoot 0)
                       else None),
      oldGetRoot = (\<lambda>x. if x = 0 then Some 1 else Some x),
      hostGetRoot = (\<lambda>k x. if k = 1 then Some (Suc x) else Some x)\<rparr>"

definition leafChain :: rootHost where
  "leafChain =
     \<lparr>getRootOf = (\<lambda>x. if x = 0 \<or> x = 1 then Some PatchedGetRoot
                       else if x = 2 then Some (HostGetRoot 0)
                       else None),
      oldGetRoot = (\<lambda>x. if x = 0 then Some 1 else Some 2),
      hostGetRoot = (\<lambda>k x. Some x)\<rparr>"

text \<open>
  C8 as stated fails. The wrapper resolves at most one level beyond the original's
  candidate, so it is idempotent only where the host's own functions are: in
  \<open>chainHost\<close> the leaf 0 resolves to 2, and resolving the root of 2 returns 3. And the
  test is one of function identity, not of where the candidate's resolution points: in
  \<open>leafChain\<close> the candidate 1 of the leaf 0 resolves to 2, not to itself, and is
  returned as it is, because it has the leaf's own \<^verbatim>\<open>getRoot\<close>.
\<close>

theorem getRoot_not_idempotent_counterexample:
  "getRootOf chainHost 0 = Some PatchedGetRoot
   \<and> getRoot chainHost 0 = Inr (Some 2)
   \<and> callGetRoot chainHost 2 = Inr (Some 3)
   \<and> callGetRoot chainHost 2 \<noteq> getRoot chainHost 0
   \<and> getRootOf leafChain 0 = Some PatchedGetRoot
   \<and> oldGetRoot leafChain 0 = Some 1
   \<and> callGetRoot leafChain 1 = Inr (Some 2)
   \<and> getRoot leafChain 0 = Inr (Some 1)"
  by (simp add: chainHost_def leafChain_def callGetRoot_def)

text \<open>
  C8, amended. After the original computes a candidate root, the patched \<^verbatim>\<open>getRoot\<close>
  returns the candidate as it is when the candidate's \<^verbatim>\<open>getRoot\<close> is the same function
  as the receiver's own \<^verbatim>\<open>getRoot\<close>; otherwise resolution proceeds exactly one level
  further and the result is what the call \<^verbatim>\<open>topItem.getRoot()\<close> returns; when the original
  returns nothing, so does the patched method. Root resolution is idempotent on a leaf
  (an item whose \<^verbatim>\<open>getRoot\<close> is the wrapper) in every host that keeps this contract: the
  method the wrapper replaces maps each item it returns to itself, and an item that a
  host item's own \<^verbatim>\<open>getRoot\<close> returns is a host item whose own \<^verbatim>\<open>getRoot\<close> returns that
  item again.
\<close>

theorem getRoot_one_level_further:
  "(oldGetRoot h l = None \<longrightarrow> getRoot h l = Inr None)
   \<and> (\<forall>topItem. oldGetRoot h l = Some topItem \<and> getRootOf h topItem = getRootOf h l \<longrightarrow>
         getRoot h l = Inr (Some topItem))
   \<and> (\<forall>topItem. oldGetRoot h l = Some topItem \<and> getRootOf h topItem \<noteq> getRootOf h l \<longrightarrow>
         getRoot h l = callGetRoot h topItem)
   \<and> (getRootOf h l = Some PatchedGetRoot
        \<and> (\<forall>x y. oldGetRoot h x = Some y \<longrightarrow> oldGetRoot h y = Some y)
        \<and> (\<forall>x k y. getRootOf h x = Some (HostGetRoot k) \<and> hostGetRoot h k x = Some y \<longrightarrow>
              (\<exists>k'. getRootOf h y = Some (HostGetRoot k') \<and> hostGetRoot h k' y = Some y))
        \<and> getRoot h l = Inr (Some r)
        \<longrightarrow> callGetRoot h r = Inr (Some r))"
proof -
  have a: "oldGetRoot h l = None \<longrightarrow> getRoot h l = Inr None"
    by (simp del: getRoot.simps add: getRoot_unfold)
  have b: "getRoot h l = Inr (Some topItem)"
    if "oldGetRoot h l = Some topItem" "getRootOf h topItem = getRootOf h l" for topItem
    using that by (simp del: getRoot.simps add: getRoot_unfold)
  have c: "getRoot h l = callGetRoot h topItem"
    if "oldGetRoot h l = Some topItem" "getRootOf h topItem \<noteq> getRootOf h l" for topItem
    using that by (simp del: getRoot.simps add: getRoot_unfold)
  have d: "callGetRoot h r = Inr (Some r)"
    if leaf: "getRootOf h l = Some PatchedGetRoot"
      and orig: "\<forall>x y. oldGetRoot h x = Some y \<longrightarrow> oldGetRoot h y = Some y"
      and host: "\<forall>x k y. getRootOf h x = Some (HostGetRoot k) \<and> hostGetRoot h k x = Some y \<longrightarrow>
              (\<exists>k'. getRootOf h y = Some (HostGetRoot k') \<and> hostGetRoot h k' y = Some y)"
      and res: "getRoot h l = Inr (Some r)"
  proof -
    from res obtain topItem where topItem: "oldGetRoot h l = Some topItem"
      by (cases "oldGetRoot h l") (simp_all del: getRoot.simps add: getRoot_unfold)
    have fixd: "oldGetRoot h topItem = Some topItem"
      using orig topItem by blast
    show ?thesis
    proof (cases "getRootOf h topItem = Some PatchedGetRoot")
      case True
      have self: "callGetRoot h topItem = Inr (Some topItem)"
        using True fixd by (simp del: getRoot.simps add: callGetRoot_def getRoot_unfold)
      have "getRoot h l = Inr (Some topItem)"
        using True leaf topItem by (intro b) simp_all
      with res self show ?thesis by simp
    next
      case False
      then have call: "getRoot h l = callGetRoot h topItem"
        using leaf topItem by (intro c) simp_all
      from False obtain k where k: "getRootOf h topItem = Some (HostGetRoot k)"
        using call res by (cases "getRootOf h topItem"; cases "the (getRootOf h topItem)")
          (auto simp del: getRoot.simps simp: callGetRoot_def)
      then have "hostGetRoot h k topItem = Some r"
        using call res by (simp del: getRoot.simps add: callGetRoot_def)
      with host k have "\<exists>k'. getRootOf h r = Some (HostGetRoot k') \<and> hostGetRoot h k' r = Some r"
        by blast
      then show ?thesis
        by (auto simp: callGetRoot_def)
    qed
  qed
  from a b c d show ?thesis by blast
qed

theorem getRoot_one_level_further_witness:
  "getRoot (popoverHost\<lparr>oldGetRoot := \<lambda>x. None\<rparr>) 0 = Inr None
   \<and> getRoot detachedHost 0 = Inr (Some 0)
   \<and> getRoot popoverHost 0 = callGetRoot popoverHost 1
   \<and> callGetRoot popoverHost 2 = Inr (Some 2)"
proof -
  let ?n = "popoverHost\<lparr>oldGetRoot := \<lambda>x. None\<rparr>"
  have n: "oldGetRoot ?n 0 = None" by simp
  have s: "oldGetRoot detachedHost 0 = Some 0 \<and> getRootOf detachedHost 0 = getRootOf detachedHost 0"
    by (simp add: detachedHost_def)
  have f: "oldGetRoot popoverHost 0 = Some 1 \<and> getRootOf popoverHost 1 \<noteq> getRootOf popoverHost 0"
    by (simp add: popoverHost_def)
  have i: "getRootOf popoverHost 0 = Some PatchedGetRoot
        \<and> (\<forall>x y. oldGetRoot popoverHost x = Some y \<longrightarrow> oldGetRoot popoverHost y = Some y)
        \<and> (\<forall>x k y. getRootOf popoverHost x = Some (HostGetRoot k) \<and>
               hostGetRoot popoverHost k x = Some y \<longrightarrow>
               (\<exists>k'. getRootOf popoverHost y = Some (HostGetRoot k') \<and>
                    hostGetRoot popoverHost k' y = Some y))
        \<and> getRoot popoverHost 0 = Inr (Some 2)"
    by (auto simp: popoverHost_def split: if_splits)
  from getRoot_one_level_further [of ?n 0, THEN conjunct1] n
  have c1: "getRoot ?n 0 = Inr None" by blast
  from getRoot_one_level_further [of detachedHost 0, THEN conjunct2, THEN conjunct1,
      rule_format, OF s]
  have c2: "getRoot detachedHost 0 = Inr (Some 0)" .
  from getRoot_one_level_further [of popoverHost 0, THEN conjunct2, THEN conjunct2,
      THEN conjunct1, rule_format, OF f]
  have c3: "getRoot popoverHost 0 = callGetRoot popoverHost 1" .
  from getRoot_one_level_further [of popoverHost 0 2, THEN conjunct2, THEN conjunct2,
      THEN conjunct2, rule_format, OF i]
  have c4: "callGetRoot popoverHost 2 = Inr (Some 2)" .
  from c1 c2 c3 c4 show ?thesis by blast
qed

subsection \<open>File open\<close>

text \<open>
  The wrapper of \<^verbatim>\<open>openFile\<close> patches two more methods with \<^verbatim>\<open>around\<close> and hands the
  functions that \<^verbatim>\<open>around\<close> returns to \<^verbatim>\<open>setTimeout\<close>. The state holds what this needs: the
  host's own state (with the list of recently opened files), the wrappers now installed
  on \<^verbatim>\<open>Workspace.prototype.recordMostRecentOpenedFile\<close> (outermost first, each with its
  number and the file it excludes), the plugin \<^verbatim>\<open>recent-files-obsidian\<close> if it is installed
  (\<open>None\<close> if not) with the wrappers on its \<^verbatim>\<open>shouldAddFile\<close>, the callbacks given to
  \<^verbatim>\<open>setTimeout\<close> that have not run yet, and the number of the next wrapper.
\<close>

datatype timerCallback = RemoveRecordPatch nat | RemoveShouldAddPatch nat

record ('f, 'h) fileWorld =
  hostState :: 'h
  recordPatches :: "(nat \<times> 'f) list"
  recentFilesPlugin :: "(nat \<times> 'f) list option"
  timers :: "timerCallback list"
  nextPatch :: nat

text \<open>
  The two wrapper functions (lines 399-406 and 417-425), over the method \<open>old\<close> they
  replace. \<open>file\<close> is the file being opened and \<open>file'\<close> the argument \<^verbatim>\<open>_file\<close>; files are
  compared by identity. The first returns \<^verbatim>\<open>undefined\<close> (\<open>None\<close>) without calling \<open>old\<close> for
  the excluded file.
\<close>

definition recordMostRecentOpenedFile ::
  "'f \<Rightarrow> ('f \<Rightarrow> 'h \<Rightarrow> 'r option \<times> 'h) \<Rightarrow> 'f \<Rightarrow> 'h \<Rightarrow> 'r option \<times> 'h" where
  "recordMostRecentOpenedFile file old file' h =
     (if file' \<noteq> file then old file' h else (None, h))"

definition shouldAddFile :: "'f \<Rightarrow> ('f \<Rightarrow> 'h \<Rightarrow> bool) \<Rightarrow> 'f \<Rightarrow> 'h \<Rightarrow> bool" where
  "shouldAddFile file old file' h = (file' \<noteq> file \<and> old file' h)"

text \<open>
  The method that a call finds installed: the wrappers around the host's original, the
  outermost first.
\<close>

fun recordMethod ::
  "(nat \<times> 'f) list \<Rightarrow> ('f \<Rightarrow> 'h \<Rightarrow> 'r option \<times> 'h) \<Rightarrow> 'f \<Rightarrow> 'h \<Rightarrow> 'r option \<times> 'h" where
  "recordMethod [] orig = orig"
| "recordMethod ((k, file) # ps) orig = recordMostRecentOpenedFile file (recordMethod ps orig)"

fun shouldAddMethod ::
  "(nat \<times> 'f) list \<Rightarrow> ('f \<Rightarrow> 'h \<Rightarrow> bool) \<Rightarrow> 'f \<Rightarrow> 'h \<Rightarrow> bool" where
  "shouldAddMethod [] orig = orig"
| "shouldAddMethod ((k, file) # ps) orig = shouldAddFile file (shouldAddMethod ps orig)"

text \<open>
  \<^verbatim>\<open>workspace.recordMostRecentOpenedFile(file')\<close> and \<^verbatim>\<open>recentFiles.shouldAddFile(file')\<close>
  as anyone calls them; the second is \<open>None\<close> when the plugin is not installed.
\<close>

definition callRecord ::
  "('f \<Rightarrow> 'h \<Rightarrow> 'r option \<times> 'h) \<Rightarrow> 'f \<Rightarrow> ('f, 'h) fileWorld \<Rightarrow> 'r option \<times> ('f, 'h) fileWorld" where
  "callRecord orig file' w =
     (let (r, h) = recordMethod (recordPatches w) orig file' (hostState w)
      in (r, w\<lparr>hostState := h\<rparr>))"

definition callShouldAdd ::
  "('f \<Rightarrow> 'h \<Rightarrow> bool) \<Rightarrow> 'f \<Rightarrow> ('f, 'h) fileWorld \<Rightarrow> bool option" where
  "callShouldAdd orig file' w =
     (case recentFilesPlugin w of
        None \<Rightarrow> None
      | Some ps \<Rightarrow> Some (shouldAddMethod ps orig file' (hostState w)))"

text \<open>
  \<^verbatim>\<open>around(obj, {method(old) {...}})\<close> of \<^verbatim>\<open>monkey-around\<close> installs the wrapper over the
  method now in place and returns a function that takes this one wrapper out again and
  leaves the others. The returned function is known by the wrapper's number.
\<close>

definition aroundRecord :: "'f \<Rightarrow> ('f, 'h) fileWorld \<Rightarrow> timerCallback \<times> ('f, 'h) fileWorld" where
  "aroundRecord file w =
     (RemoveRecordPatch (nextPatch w),
      w\<lparr>recordPatches := (nextPatch w, file) # recordPatches w, nextPatch := Suc (nextPatch w)\<rparr>)"

definition aroundShouldAdd ::
  "'f \<Rightarrow> (nat \<times> 'f) list \<Rightarrow> ('f, 'h) fileWorld \<Rightarrow> timerCallback \<times> ('f, 'h) fileWorld" where
  "aroundShouldAdd file ps w =
     (RemoveShouldAddPatch (nextPatch w),
      w\<lparr>recentFilesPlugin := Some ((nextPatch w, file) # ps), nextPatch := Suc (nextPatch w)\<rparr>)"

definition removePatch :: "nat \<Rightarrow> (nat \<times> 'f) list \<Rightarrow> (nat \<times> 'f) list" where
  "removePatch k ps = filter (\<lambda>p. fst p \<noteq> k) ps"

fun runCallback :: "timerCallback \<Rightarrow> ('f, 'h) fileWorld \<Rightarrow> ('f, 'h) fileWorld" where
  "runCallback (RemoveRecordPatch k) w = w\<lparr>recordPatches := removePatch k (recordPatches w)\<rparr>"
| "runCallback (RemoveShouldAddPatch k) w =
     w\<lparr>recentFilesPlugin := map_option (removePatch k) (recentFilesPlugin w)\<rparr>"

text \<open>
  \<^verbatim>\<open>setTimeout(cb, 1)\<close> queues the callback; \<open>runTimers\<close> is the later turn of the event
  loop in which the queued callbacks run.
\<close>

definition setTimeout :: "timerCallback \<Rightarrow> ('f, 'h) fileWorld \<Rightarrow> ('f, 'h) fileWorld" where
  "setTimeout cb w = w\<lparr>timers := timers w @ [cb]\<rparr>"

definition runTimers :: "('f, 'h) fileWorld \<Rightarrow> ('f, 'h) fileWorld" where
  "runTimers w = fold runCallback (timers w) (w\<lparr>timers := []\<rparr>)"

text \<open>
  The body of \<^verbatim>\<open>if (isDailyNoteLeaf(this)) { ... }\<close> in the wrapper of \<^verbatim>\<open>openFile\<close>
  (lines 397-428), and the wrapper itself (lines 394-432).
\<close>

definition excludeFromRecents :: "'f \<Rightarrow> ('f, 'h) fileWorld \<Rightarrow> ('f, 'h) fileWorld" where
  "excludeFromRecents file w =
     (let (remove1, w1) = aroundRecord file w;
          w2 = setTimeout remove1 w1
      in case recentFilesPlugin w2 of
           None \<Rightarrow> w2
         | Some recentFiles \<Rightarrow>
             let (remove2, w3) = aroundShouldAdd file recentFiles w2
             in setTimeout remove2 w3)"

definition openFile ::
  "('l \<Rightarrow> 'h \<Rightarrow> bool) \<Rightarrow> ('l \<Rightarrow> 'f \<Rightarrow> 'o \<Rightarrow> ('f, 'h) fileWorld \<Rightarrow> 'a \<times> ('f, 'h) fileWorld) \<Rightarrow>
   'l \<Rightarrow> 'f \<Rightarrow> 'o \<Rightarrow> ('f, 'h) fileWorld \<Rightarrow> 'a \<times> ('f, 'h) fileWorld" where
  "openFile isDailyNoteLeaf old this file openState w =
     (if isDailyNoteLeaf this (hostState w)
      then old this file openState (excludeFromRecents file w)
      else old this file openState w)"

text \<open>A sequence of calls of \<^verbatim>\<open>workspace.recordMostRecentOpenedFile\<close>, in order.\<close>

fun recordAll ::
  "('f \<Rightarrow> 'h \<Rightarrow> 'r option \<times> 'h) \<Rightarrow> 'f list \<Rightarrow> ('f, 'h) fileWorld \<Rightarrow> ('f, 'h) fileWorld" where
  "recordAll orig [] w = w"
| "recordAll orig (g # gs) w = recordAll orig gs (snd (callRecord orig g w))"

lemma recordPatches_exclude [simp]:
  "recordPatches (excludeFromRecents file w) = (nextPatch w, file) # recordPatches w"
  by (simp add: excludeFromRecents_def aroundRecord_def aroundShouldAdd_def setTimeout_def
      Let_def split: option.splits)

lemma hostState_exclude [simp]: "hostState (excludeFromRecents file w) = hostState w"
  by (simp add: excludeFromRecents_def aroundRecord_def aroundShouldAdd_def setTimeout_def
      Let_def split: option.splits)

lemma recentFilesPlugin_exclude [simp]:
  "recentFilesPlugin (excludeFromRecents file w) =
     map_option (\<lambda>ps. (Suc (nextPatch w), file) # ps) (recentFilesPlugin w)"
  by (simp add: excludeFromRecents_def aroundRecord_def aroundShouldAdd_def setTimeout_def
      Let_def split: option.splits)

lemma timers_exclude [simp]:
  "timers (excludeFromRecents file w) =
     timers w @ RemoveRecordPatch (nextPatch w) #
       (case recentFilesPlugin w of None \<Rightarrow> [] | Some ps \<Rightarrow> [RemoveShouldAddPatch (Suc (nextPatch w))])"
  by (simp add: excludeFromRecents_def aroundRecord_def aroundShouldAdd_def setTimeout_def
      Let_def split: option.splits)

lemma callRecord_fields [simp]:
  "recordPatches (snd (callRecord orig g w)) = recordPatches w"
  "recentFilesPlugin (snd (callRecord orig g w)) = recentFilesPlugin w"
  "timers (snd (callRecord orig g w)) = timers w"
  "nextPatch (snd (callRecord orig g w)) = nextPatch w"
  by (simp_all add: callRecord_def case_prod_beta)

lemma recordAll_fields [simp]:
  "recordPatches (recordAll orig gs w) = recordPatches w"
  "recentFilesPlugin (recordAll orig gs w) = recentFilesPlugin w"
  "timers (recordAll orig gs w) = timers w"
  "nextPatch (recordAll orig gs w) = nextPatch w"
  by (induction gs arbitrary: w) simp_all

lemma callRecord_excluded:
  "callRecord orig file (excludeFromRecents file w) = (None, excludeFromRecents file w)"
  by (simp add: callRecord_def recordMostRecentOpenedFile_def)

lemma callRecord_other:
  "g \<noteq> file \<Longrightarrow>
   fst (callRecord orig g (excludeFromRecents file w)) = fst (callRecord orig g w) \<and>
   hostState (snd (callRecord orig g (excludeFromRecents file w)))
     = hostState (snd (callRecord orig g w))"
  by (simp add: callRecord_def recordMostRecentOpenedFile_def case_prod_beta)

lemma recordAll_excluded:
  "hostState (recordAll orig gs (excludeFromRecents file w))
     = hostState (recordAll orig (filter (\<lambda>g. g \<noteq> file) gs) w)"
proof -
  have "recordPatches v = (k, file) # recordPatches w \<Longrightarrow> hostState v = hostState w \<Longrightarrow>
        hostState (recordAll orig gs v) = hostState (recordAll orig (filter (\<lambda>g. g \<noteq> file) gs) w)"
    for v w k
  proof (induction gs arbitrary: v w)
    case Nil
    then show ?case by simp
  next
    case (Cons g gs)
    show ?case
    proof (cases "g = file")
      case True
      have "snd (callRecord orig g v) = v"
        using True Cons.prems by (simp add: callRecord_def recordMostRecentOpenedFile_def)
      with True Cons show ?thesis by simp
    next
      case False
      have "hostState (snd (callRecord orig g v)) = hostState (snd (callRecord orig g w))"
        using False Cons.prems
        by (simp add: callRecord_def recordMostRecentOpenedFile_def case_prod_beta)
      with False Cons.prems Cons.IH [of "snd (callRecord orig g v)" "snd (callRecord orig g w)"]
      show ?thesis by simp
    qed
  qed
  from this [of "excludeFromRecents file w" "nextPatch w"] show ?thesis by simp
qed

lemma callShouldAdd_excluded:
  "recentFilesPlugin w \<noteq> None \<Longrightarrow> callShouldAdd admit file (excludeFromRecents file w) = Some False"
  by (auto simp: callShouldAdd_def shouldAddFile_def)

lemma callShouldAdd_other:
  "g \<noteq> file \<Longrightarrow> callShouldAdd admit g (excludeFromRecents file w) = callShouldAdd admit g w"
  by (cases "recentFilesPlugin w") (simp_all add: callShouldAdd_def shouldAddFile_def)

text \<open>
  C3. On a guarded leaf the patched \<^verbatim>\<open>openFile\<close> runs the original in a state where both
  wrappers are installed. In that state a call of the recording hook with the opened
  file returns without reaching the original recorder, so the host's state, the list of
  recent files included, is as before; a call with any other file returns what it
  returned without the wrapper and changes the host's state in the same way; over any
  sequence of calls the host's state is that of the same calls without those for the
  opened file. The tracker's \<^verbatim>\<open>shouldAddFile\<close> answers false for the opened file and as
  before for every other file. If the original \<^verbatim>\<open>openFile\<close> reports to the hook the files
  \<open>gs\<close>, the host's state after the patched call is that of recording \<open>gs\<close> without the
  opened file.
\<close>

theorem openFile_excludes_opened_file:
  fixes orig :: "'f \<Rightarrow> 'h \<Rightarrow> 'r option \<times> 'h"
    and old :: "'l \<Rightarrow> 'f \<Rightarrow> 'o \<Rightarrow> ('f, 'h) fileWorld \<Rightarrow> 'a \<times> ('f, 'h) fileWorld"
  assumes guarded: "isDailyNoteLeaf this (hostState w)"
  shows "openFile isDailyNoteLeaf old this file openState w
           = old this file openState (excludeFromRecents file w)
       \<and> callRecord orig file (excludeFromRecents file w) = (None, excludeFromRecents file w)
       \<and> (\<forall>g. g \<noteq> file \<longrightarrow>
             fst (callRecord orig g (excludeFromRecents file w)) = fst (callRecord orig g w) \<and>
             hostState (snd (callRecord orig g (excludeFromRecents file w)))
               = hostState (snd (callRecord orig g w)))
       \<and> (\<forall>gs. hostState (recordAll orig gs (excludeFromRecents file w))
               = hostState (recordAll orig (filter (\<lambda>g. g \<noteq> file) gs) w))
       \<and> (recentFilesPlugin w \<noteq> None \<longrightarrow>
             callShouldAdd admit file (excludeFromRecents file w) = Some False)
       \<and> (\<forall>g. g \<noteq> file \<longrightarrow>
             callShouldAdd admit g (excludeFromRecents file w) = callShouldAdd admit g w)
       \<and> ((\<forall>v. snd (old this file openState v) = recordAll orig gs v) \<longrightarrow>
             hostState (snd (openFile isDailyNoteLeaf old this file openState w))
               = hostState (recordAll orig (filter (\<lambda>g. g \<noteq> file) gs) w))"
proof -
  have a: "openFile isDailyNoteLeaf old this file openState w
           = old this file openState (excludeFromRecents file w)"
    using guarded by (simp add: openFile_def)
  have b: "hostState (snd (openFile isDailyNoteLeaf old this file openState w))
               = hostState (recordAll orig (filter (\<lambda>g. g \<noteq> file) gs) w)"
    if "\<forall>v. snd (old this file openState v) = recordAll orig gs v"
    using that by (simp add: a recordAll_excluded)
  from a b show ?thesis
    by (simp add: callRecord_excluded callRecord_other recordAll_excluded
        callShouldAdd_excluded callShouldAdd_other)
qed

text \<open>
  An example: one recent file, no wrapper installed, the tracker plugin present; a
  recorder that puts the file in front of the list; and a host \<^verbatim>\<open>openFile\<close> that reports
  another file and then the opened one.
\<close>

definition idleWorld :: "(string, string list) fileWorld" where
  "idleWorld = \<lparr>hostState = [''old.md''], recordPatches = [], recentFilesPlugin = Some [],
                timers = [], nextPatch = 0\<rparr>"

definition pushRecent :: "string \<Rightarrow> string list \<Rightarrow> unit option \<times> string list" where
  "pushRecent f h = (None, f # h)"

definition hostOpen ::
  "nat \<Rightarrow> string \<Rightarrow> unit \<Rightarrow> (string, string list) fileWorld \<Rightarrow> unit \<times> (string, string list) fileWorld" where
  "hostOpen this file openState v = ((), recordAll pushRecent [''other.md'', file] v)"

theorem openFile_excludes_opened_file_witness:
  "hostState (snd (openFile (\<lambda>this h. this = 1) hostOpen 1 ''today.md'' () idleWorld))
     = [''other.md'', ''old.md'']
   \<and> callShouldAdd (\<lambda>f h. True) ''today.md'' (excludeFromRecents ''today.md'' idleWorld) = Some False
   \<and> callShouldAdd (\<lambda>f h. True) ''other.md'' (excludeFromRecents ''today.md'' idleWorld) = Some True
   \<and> hostState (snd (callRecord pushRecent ''other.md'' (excludeFromRecents ''today.md'' idleWorld)))
     = [''other.md'', ''old.md'']"
proof -
  let ?isd = "\<lambda>(this :: nat) (h :: string list). this = 1"
  let ?admit = "\<lambda>(f :: string) (h :: string list). True"
  have g: "?isd 1 (hostState idleWorld)" by simp
  have p: "recentFilesPlugin idleWorld \<noteq> None"
    by (simp add: idleWorld_def)
  have o: "''other.md'' \<noteq> ''today.md''" by simp
  have h: "\<forall>v. snd (hostOpen 1 ''today.md'' () v) = recordAll pushRecent [''other.md'', ''today.md''] v"
    by (simp add: hostOpen_def)
  note t = openFile_excludes_opened_file [of ?isd 1 idleWorld hostOpen "''today.md''" "()"
      pushRecent ?admit "[''other.md'', ''today.md'']", OF g]
  note t5 = t [THEN conjunct2, THEN conjunct2, THEN conjunct2, THEN conjunct2, THEN conjunct1]
  note t6 = t [THEN conjunct2, THEN conjunct2, THEN conjunct2, THEN conjunct2, THEN conjunct2,
      THEN conjunct1]
  note t7 = t [THEN conjunct2, THEN conjunct2, THEN conjunct2, THEN conjunct2, THEN conjunct2,
      THEN conjunct2]
  from t7 h have c1: "hostState (snd (openFile ?isd hostOpen 1 ''today.md'' () idleWorld))
      = hostState (recordAll pushRecent (filter (\<lambda>g. g \<noteq> ''today.md'') [''other.md'', ''today.md'']) idleWorld)"
    by blast
  from t5 p have c2: "callShouldAdd ?admit ''today.md'' (excludeFromRecents ''today.md'' idleWorld) = Some False"
    by blast
  from t6 [rule_format, of "''other.md''", OF o]
  have c3: "callShouldAdd ?admit ''other.md'' (excludeFromRecents ''today.md'' idleWorld)
      = callShouldAdd ?admit ''other.md'' idleWorld" .
  have e1: "hostState (recordAll pushRecent (filter (\<lambda>g. g \<noteq> ''today.md'') [''other.md'', ''today.md'']) idleWorld)
      = [''other.md'', ''old.md'']"
    by (simp add: callRecord_def pushRecent_def idleWorld_def)
  have e3: "callShouldAdd ?admit ''other.md'' idleWorld = Some True"
    by (simp add: callShouldAdd_def idleWorld_def)
  from t [THEN conjunct2, THEN conjunct2, THEN conjunct1, rule_format, of "''other.md''", OF o]
  have c4: "hostState (snd (callRecord pushRecent ''other.md'' (excludeFromRecents ''today.md'' idleWorld)))
      = hostState (snd (callRecord pushRecent ''other.md'' idleWorld))"
    by blast
  have e4: "hostState (snd (callRecord pushRecent ''other.md'' idleWorld)) = [''other.md'', ''old.md'']"
    by (simp add: callRecord_def pushRecent_def idleWorld_def)
  from c1 c2 c3 c4 e1 e3 e4 show ?thesis by simp
qed



lemma runCallback_fields [simp]:
  "hostState (runCallback cb w) = hostState w"
  "timers (runCallback cb w) = timers w"
  "nextPatch (runCallback cb w) = nextPatch w"
  by (cases cb; simp)+

lemma fold_runCallback_fields [simp]:
  "hostState (fold runCallback cbs w) = hostState w"
  "timers (fold runCallback cbs w) = timers w"
  "nextPatch (fold runCallback cbs w) = nextPatch w"
  by (induction cbs arbitrary: w) simp_all




text \<open>The wrappers installed on the tracker's \<^verbatim>\<open>shouldAddFile\<close>; none without the plugin.\<close>

definition pluginPatches :: "('f, 'h) fileWorld \<Rightarrow> (nat \<times> 'f) list" where
  "pluginPatches w = (case recentFilesPlugin w of None \<Rightarrow> [] | Some ps \<Rightarrow> ps)"






lemma runTimers_simps [simp]:
  "hostState (runTimers w) = hostState w"
  "timers (runTimers w) = []"
  "nextPatch (runTimers w) = nextPatch w"
  by (simp_all add: runTimers_def)

lemma pluginPatches_exclude [simp]:
  "pluginPatches (excludeFromRecents file w) =
     (case recentFilesPlugin w of None \<Rightarrow> [] | Some ps \<Rightarrow> (Suc (nextPatch w), file) # ps)"
  by (simp add: pluginPatches_def split: option.splits)

lemma pluginPatches_recordAll [simp]:
  "pluginPatches (recordAll orig gs w) = pluginPatches w"
  by (simp add: pluginPatches_def)




subsection \<open>Leaves that do not host the guarded view\<close>

text \<open>
  C9 as stated fails for root resolution: the wrapper of \<^verbatim>\<open>getRoot\<close> never asks
  \<^verbatim>\<open>isDailyNoteLeaf\<close>, so it acts on every leaf alike. For the leaf 0 of \<open>popoverHost\<close>,
  whatever view it hosts, the original returns the split 1 and the patched method
  returns the root 2.
\<close>

theorem getRoot_ignores_guard_counterexample:
  "getRoot popoverHost 0 = Inr (Some 2) \<and> oldGetRoot popoverHost 0 = Some 1
   \<and> getRoot popoverHost 0 \<noteq> Inr (oldGetRoot popoverHost 0)"
  by (simp add: popoverHost_def)

text \<open>
  C9, amended. On a leaf that does not host the guarded view the patched \<^verbatim>\<open>setPinned\<close>
  and the patched \<^verbatim>\<open>openFile\<close> return what the original returns and leave the state the
  original leaves (the guard of \<^verbatim>\<open>setPinned\<close> is read after the original has run). The
  patched \<^verbatim>\<open>getRoot\<close> is the same for every leaf, guarded or not: it returns the
  original's result exactly when the original returns nothing, or its candidate has
  the leaf's own \<^verbatim>\<open>getRoot\<close> function, or the candidate's \<^verbatim>\<open>getRoot()\<close> returns the
  candidate; when the candidate has another \<^verbatim>\<open>getRoot\<close> function than the leaf, it
  returns what the candidate's \<^verbatim>\<open>getRoot()\<close> returns.
\<close>

theorem unguarded_leaf_operations:
  fixes oldSetPinned :: "'l \<Rightarrow> bool \<Rightarrow> 'w \<Rightarrow> 'w"
    and oldOpenFile :: "'k \<Rightarrow> 'f \<Rightarrow> 'o \<Rightarrow> ('f, 'h) fileWorld \<Rightarrow> 'a \<times> ('f, 'h) fileWorld"
  shows "(\<not> isGuarded this (oldSetPinned this pinned w) \<longrightarrow>
            setPinned oldSetPinned isGuarded this pinned w = oldSetPinned this pinned w)
       \<and> (\<not> isDailyNoteLeaf leaf (hostState v) \<longrightarrow>
            openFile isDailyNoteLeaf oldOpenFile leaf opened openState v
              = oldOpenFile leaf opened openState v)
       \<and> (oldGetRoot h l = None \<longrightarrow> getRoot h l = Inr None)
       \<and> (\<forall>topItem. oldGetRoot h l = Some topItem \<longrightarrow>
            (getRoot h l = Inr (oldGetRoot h l)) =
              (getRootOf h topItem = getRootOf h l \<or> callGetRoot h topItem = Inr (Some topItem)))
       \<and> (\<forall>topItem. oldGetRoot h l = Some topItem \<and> getRootOf h topItem = getRootOf h l \<longrightarrow>
            getRoot h l = Inr (Some topItem))
       \<and> (\<forall>topItem. oldGetRoot h l = Some topItem \<and> getRootOf h topItem \<noteq> getRootOf h l \<longrightarrow>
            getRoot h l = callGetRoot h topItem)"
  by (auto simp del: getRoot.simps simp add: getRoot_unfold openFile_def Let_def)

theorem unguarded_leaf_operations_witness:
  "setPinned (\<lambda>this p w. (fst w, p)) (\<lambda>this w. fst w) () False (False, True) = (False, False)
   \<and> openFile (\<lambda>this h. this = 1) hostOpen 2 ''today.md'' () idleWorld
        = hostOpen 2 ''today.md'' () idleWorld
   \<and> getRoot popoverHost 2 = Inr (oldGetRoot popoverHost 2)
   \<and> getRoot (popoverHost\<lparr>oldGetRoot := \<lambda>x. None\<rparr>) 0 = Inr None
   \<and> getRoot detachedHost 0 = Inr (Some 0)
   \<and> getRoot popoverHost 0 = callGetRoot popoverHost 1"
proof -
  let ?old = "\<lambda>(this :: unit) (p :: bool) (w :: bool \<times> bool). (fst w, p)"
  let ?isg = "\<lambda>(this :: unit) (w :: bool \<times> bool). fst w"
  let ?isd = "\<lambda>(this :: nat) (h :: string list). this = 1"
  note t = unguarded_leaf_operations [where isGuarded = ?isg and this = "()"
      and oldSetPinned = ?old and pinned = False and w = "(False, True)"
      and isDailyNoteLeaf = ?isd and leaf = 2 and v = idleWorld and oldOpenFile = hostOpen
      and opened = "''today.md''" and openState = "()" and h = popoverHost and l = 2]
  have h1: "\<not> ?isg () (?old () False (False, True))" by simp
  have h2: "\<not> ?isd 2 (hostState idleWorld)" by simp
  have h3: "oldGetRoot popoverHost 2 = Some 2"
    by (simp add: popoverHost_def)
  have h4: "getRootOf popoverHost 2 = getRootOf popoverHost 2 \<or>
            callGetRoot popoverHost 2 = Inr (Some 2)"
    by simp
  from t [THEN conjunct1] h1 have c1: "setPinned ?old ?isg () False (False, True) = ?old () False (False, True)"
    by blast
  from t [THEN conjunct2, THEN conjunct1] h2 have c2: "openFile ?isd hostOpen 2 ''today.md'' () idleWorld
        = hostOpen 2 ''today.md'' () idleWorld"
    by blast
  from t [THEN conjunct2, THEN conjunct2, THEN conjunct2, THEN conjunct1] h3 h4
  have c3: "getRoot popoverHost 2 = Inr (oldGetRoot popoverHost 2)"
    by blast
  let ?h = "popoverHost\<lparr>oldGetRoot := \<lambda>x. None\<rparr>"
  have h5: "oldGetRoot ?h 0 = None" by simp
  from unguarded_leaf_operations [where h = ?h and l = 0, THEN conjunct2, THEN conjunct2,
      THEN conjunct1] h5
  have c4: "getRoot ?h 0 = Inr None"
    by blast
  have h6: "oldGetRoot detachedHost 0 = Some 0 \<and>
            getRootOf detachedHost 0 = getRootOf detachedHost 0"
    by (simp add: detachedHost_def)
  from unguarded_leaf_operations [where h = detachedHost and l = 0, THEN conjunct2,
      THEN conjunct2, THEN conjunct2, THEN conjunct2, THEN conjunct1, rule_format, OF h6]
  have c5: "getRoot detachedHost 0 = Inr (Some 0)" .
  have h7: "oldGetRoot popoverHost 0 = Some 1 \<and>
            getRootOf popoverHost 1 \<noteq> getRootOf popoverHost 0"
    by (simp add: popoverHost_def)
  from unguarded_leaf_operations [where h = popoverHost and l = 0, THEN conjunct2,
      THEN conjunct2, THEN conjunct2, THEN conjunct2, THEN conjunct2, rule_format, OF h7]
  have c6: "getRoot popoverHost 0 = callGetRoot popoverHost 1" .
  from c1 c2 c3 c4 c5 c6 show ?thesis by simp
qed


section \<open>Installing and removing the active-leaf guard and the key listener\<close>

text \<open>
  \<^verbatim>\<open>patchSetActiveLeaf\<close> (lines 212-236) and the registration of \<^verbatim>\<open>escHandler\<close> in
  \<^verbatim>\<open>initializeESCShield\<close> (lines 167-174) each install something and register a callback
  that takes it out when the plugin unloads.

  JavaScript compares functions by identity, and \<^verbatim>\<open>f.bind(obj)\<close> makes a new function
  object. A function value is therefore a function of the host (known by a number), the
  result of \<^verbatim>\<open>.bind(this.app.workspace)\<close> on a function value, or the wrapper that
  \<^verbatim>\<open>patchSetActiveLeaf\<close> builds around the function value it captured.
\<close>

datatype fnRef = HostFunction nat | BoundFunction fnRef | SetActiveLeafWrapper fnRef

text \<open>
  The receiver \<^verbatim>\<open>this\<close> of a call: the application's workspace, or another object, of
  which the wrapper reads the property \<^verbatim>\<open>activeLeaf\<close> (\<open>None\<close> if it has none).
\<close>

datatype 'e receiver = AppWorkspace | OtherReceiver "'e leaf option"

text \<open>
  An event listener as \<^verbatim>\<open>addEventListener\<close> and \<^verbatim>\<open>removeEventListener\<close> tell listeners
  apart: by event type, callback (a function identity) and capture flag.
\<close>

record listener =
  eventType :: string
  callback :: nat
  capture :: bool

text \<open>
  The application: the workspace's state, the function that
  \<^verbatim>\<open>this.app.workspace.setActiveLeaf\<close> evaluates to, and the listeners of the document.
\<close>

record 'e app =
  workspaceState :: "'e workspace"
  setActiveLeaf :: fnRef
  listeners :: "listener list"

text \<open>\<^verbatim>\<open>stack.includes(sub)\<close>: \<open>sub\<close> occurs in \<open>stack\<close> as a contiguous part.\<close>

fun stackIncludes :: "string \<Rightarrow> string \<Rightarrow> bool" where
  "stackIncludes [] sub = (sub = [])"
| "stackIncludes (c # cs) sub = (take (length sub) (c # cs) = sub \<or> stackIncludes cs sub)"

text \<open>\<^verbatim>\<open>e?.view?.getViewType?.()\<close>\<close>

definition leafViewType :: "'e leaf option \<Rightarrow> string option" where
  "leafViewType e =
     (case e of
        None \<Rightarrow> None
      | Some l \<Rightarrow> (case view l of None \<Rightarrow> None | Some v \<Rightarrow> getViewType v))"

text \<open>
  Calling a function value with a receiver and a target leaf. A bound function calls
  its target with the workspace as receiver. The wrapper is the function assigned in
  lines 215-231: it reads \<^verbatim>\<open>this.activeLeaf?.view?.getViewType?.()\<close> of the receiver it is
  called on; \<open>stack\<close> is the text of \<^verbatim>\<open>new Error().stack\<close> at the call, and a blocked
  switch returns with the state unchanged.
\<close>

fun invoke ::
  "string \<Rightarrow> (nat \<Rightarrow> 'e receiver \<Rightarrow> 'e leaf option \<Rightarrow> 'e workspace \<Rightarrow> 'e workspace) \<Rightarrow>
   string \<Rightarrow> fnRef \<Rightarrow> 'e receiver \<Rightarrow> 'e leaf option \<Rightarrow> 'e workspace \<Rightarrow> 'e workspace" where
  "invoke DAILY_NOTE_VIEW_TYPE host stack (HostFunction k) this e s = host k this e s"
| "invoke DAILY_NOTE_VIEW_TYPE host stack (BoundFunction f) this e s =
     invoke DAILY_NOTE_VIEW_TYPE host stack f AppWorkspace e s"
| "invoke DAILY_NOTE_VIEW_TYPE host stack (SetActiveLeafWrapper originalSetActiveLeaf) this e s =
     (let targetViewType = leafViewType e;
          currentViewType =
            (case this of
               AppWorkspace \<Rightarrow> activeViewType s
             | OtherReceiver otherActiveLeaf \<Rightarrow> leafViewType otherActiveLeaf)
      in
      if currentViewType = Some DAILY_NOTE_VIEW_TYPE \<and> targetViewType \<noteq> Some DAILY_NOTE_VIEW_TYPE
         \<and> \<not> (stackIncludes stack ''user-action'' \<or> stackIncludes stack ''click'')
      then s
      else invoke DAILY_NOTE_VIEW_TYPE host stack originalSetActiveLeaf this e s)"

text \<open>
  \<^verbatim>\<open>patchSetActiveLeaf\<close> returns the new state and the callback it registers, which
  assigns the captured \<^verbatim>\<open>originalSetActiveLeaf\<close>.
\<close>

definition patchSetActiveLeaf :: "'e app \<Rightarrow> 'e app \<times> ('e app \<Rightarrow> 'e app)" where
  "patchSetActiveLeaf a =
     (let originalSetActiveLeaf = BoundFunction (setActiveLeaf a) in
      (a\<lparr>setActiveLeaf := SetActiveLeafWrapper originalSetActiveLeaf\<rparr>,
       \<lambda>a'. a'\<lparr>setActiveLeaf := originalSetActiveLeaf\<rparr>))"

text \<open>
  \<^verbatim>\<open>addEventListener\<close> ignores a listener that is already registered;
  \<^verbatim>\<open>removeEventListener\<close> takes the matching listener out, if there is one.
\<close>

definition addEventListener :: "listener \<Rightarrow> listener list \<Rightarrow> listener list" where
  "addEventListener l ls = (if l \<in> set ls then ls else ls @ [l])"

definition removeEventListener :: "listener \<Rightarrow> listener list \<Rightarrow> listener list" where
  "removeEventListener l ls = remove1 l ls"

text \<open>
  The registration of \<^verbatim>\<open>escHandler\<close> for \<^verbatim>\<open>keydown\<close> with \<^verbatim>\<open>capture: true\<close>, and the callback
  that removes it with the same capture flag. \<open>handler\<close> is the identity of the closure.
\<close>

definition keydownCapture :: "nat \<Rightarrow> listener" where
  "keydownCapture handler = \<lparr>eventType = ''keydown'', callback = handler, capture = True\<rparr>"

definition registerEscHandler :: "nat \<Rightarrow> 'e app \<Rightarrow> 'e app \<times> ('e app \<Rightarrow> 'e app)" where
  "registerEscHandler handler a =
     (a\<lparr>listeners := addEventListener (keydownCapture handler) (listeners a)\<rparr>,
      \<lambda>a'. a'\<lparr>listeners := removeEventListener (keydownCapture handler) (listeners a')\<rparr>)"

text \<open>Installing a patch and calling its uninstall callback once, or twice.\<close>

definition installThenUninstall :: "('s \<Rightarrow> 's \<times> ('s \<Rightarrow> 's)) \<Rightarrow> 's \<Rightarrow> 's" where
  "installThenUninstall patch a = (let (a', uninstall) = patch a in uninstall a')"

definition uninstallTwice :: "('s \<Rightarrow> 's \<times> ('s \<Rightarrow> 's)) \<Rightarrow> 's \<Rightarrow> 's" where
  "uninstallTwice patch a = (let (a', uninstall) = patch a in uninstall (uninstall a'))"

definition freshApp :: "unit app" where
  "freshApp = \<lparr>workspaceState = \<lparr>activeLeaf = None\<rparr>, setActiveLeaf = HostFunction 0,
               listeners = []\<rparr>"

text \<open>
  C7 as stated fails for the active-leaf guard: after install and uninstall the
  workspace's \<^verbatim>\<open>setActiveLeaf\<close> is not the function that was there before, but the bound
  copy of it that \<^verbatim>\<open>patchSetActiveLeaf\<close> made.
\<close>

theorem uninstall_not_exact_counterexample:
  "setActiveLeaf (installThenUninstall patchSetActiveLeaf freshApp) = BoundFunction (HostFunction 0)
   \<and> setActiveLeaf freshApp = HostFunction 0
   \<and> setActiveLeaf (installThenUninstall patchSetActiveLeaf freshApp) \<noteq> setActiveLeaf freshApp"
  by (simp add: installThenUninstall_def patchSetActiveLeaf_def freshApp_def Let_def)

lemma remove1_append_fresh: "l \<notin> set ls \<Longrightarrow> remove1 l (ls @ [l]) = ls"
  by (induction ls) auto

text \<open>
  C7, amended. Uninstalling the active-leaf guard assigns the reference captured at
  install time, which is the prior method bound to the workspace: everything else in
  the application is as before the install, and a call of the restored method on the
  workspace does what the same call of the prior method does. Uninstalling the key
  listener, a closure not registered before, leaves the document's listeners exactly
  as they were before the install. For both, a second uninstall changes nothing.
\<close>

theorem uninstall_restores_captured:
  fixes a :: "'e app"
  assumes fresh: "keydownCapture handler \<notin> set (listeners a)"
  shows "installThenUninstall patchSetActiveLeaf a
           = a\<lparr>setActiveLeaf := BoundFunction (setActiveLeaf a)\<rparr>
       \<and> invoke dvt host stack (setActiveLeaf (installThenUninstall patchSetActiveLeaf a))
             AppWorkspace e s
           = invoke dvt host stack (setActiveLeaf a) AppWorkspace e s
       \<and> uninstallTwice patchSetActiveLeaf a = installThenUninstall patchSetActiveLeaf a
       \<and> installThenUninstall (registerEscHandler handler) a = a
       \<and> uninstallTwice (registerEscHandler handler) a
           = installThenUninstall (registerEscHandler handler) a"
  using fresh
  by (simp add: installThenUninstall_def uninstallTwice_def patchSetActiveLeaf_def
      registerEscHandler_def addEventListener_def removeEventListener_def remove1_append_fresh
      remove1_idem Let_def)

theorem uninstall_restores_captured_witness:
  "installThenUninstall patchSetActiveLeaf freshApp
     = freshApp\<lparr>setActiveLeaf := BoundFunction (HostFunction 0)\<rparr>
   \<and> uninstallTwice patchSetActiveLeaf freshApp = installThenUninstall patchSetActiveLeaf freshApp
   \<and> installThenUninstall (registerEscHandler 7) freshApp = freshApp
   \<and> uninstallTwice (registerEscHandler 7) freshApp = freshApp"
proof -
  have h: "keydownCapture 7 \<notin> set (listeners freshApp)"
    by (simp add: freshApp_def)
  have e: "setActiveLeaf freshApp = HostFunction 0"
    by (simp add: freshApp_def)
  note t = uninstall_restores_captured [OF h]
  from t [THEN conjunct1] t [THEN conjunct2, THEN conjunct2] show ?thesis
    by (simp add: e)
qed

end
